theory Spec2Isabelle
  imports Main
begin

section \<open>Python values and exceptions\<close>

text \<open>
  Every exception the modelled code can raise is a value of \<open>py_error\<close>; a function that
  may raise returns \<open>py_error + 'a\<close>, with \<open>Inl\<close> for the raised exception.
\<close>

datatype py_error =
    AttributeError
  | TypeError
  | KeyError
  | ValueError string
  | Exception string
  | JSONDecodeError
  | ValidationError
  | ArrowInvalid
  | OtherError string

text \<open>
  \<open>str.upper()\<close> is Python's: it works on Unicode text, and it is a parameter \<open>upper\<close> of
  the function that calls it. On ASCII text it moves the letters a..z (codes 97..122) down
  by 32 and keeps every other character; that is \<open>ascii_upper\<close>, which stands for it in the
  runs on ASCII names below.
\<close>

definition ascii_upper_char :: "char \<Rightarrow> char" where
  "ascii_upper_char c =
     (let n = (of_char c :: nat)
      in if 97 \<le> n \<and> n \<le> 122 then char_of (n - 32) else c)"

definition ascii_upper :: "string \<Rightarrow> string" where
  "ascii_upper s = map ascii_upper_char s"

section \<open>utils/parquet.py: schema fragments to pyarrow fields\<close>

text \<open>The pyarrow data types that \<open>FIELD_TYPE_TO_PYARROW\<close> mentions.\<close>

datatype pa_type = pa_bool | pa_string | pa_int64 | pa_float64 | pa_timestamp_us

text \<open>\<open>pa.field(name, type, nullable)\<close>.\<close>

record pa_field =
  field_name :: string
  field_type :: pa_type
  field_nullable :: bool

type_synonym pa_schema = "pa_field list"

definition FIELD_TYPE_TO_PYARROW :: "string \<rightharpoonup> pa_type" where
  "FIELD_TYPE_TO_PYARROW =
     map_of [(''BOOLEAN'', pa_bool),
             (''STRING'', pa_string),
             (''ARRAY'', pa_string),
             (''INTEGER'', pa_int64),
             (''NUMBER'', pa_float64),
             (''DATETIME'', pa_timestamp_us),
             (''OBJECT'', pa_string)]"

definition FORMAT_MAPPING :: "string \<rightharpoonup> string" where
  "FORMAT_MAPPING =
     map_of [(''singer.decimal'', ''NUMBER''),
             (''date-time'', ''DATETIME'')]"

definition cast_input_type_by_format :: "string \<Rightarrow> string \<Rightarrow> string" where
  "cast_input_type_by_format format input_type =
     (if input_type \<noteq> ''STRING'' then input_type
      else (case FORMAT_MAPPING format of None \<Rightarrow> input_type | Some t \<Rightarrow> t))"

text \<open>
  The value of a \<open>"type"\<close> key in a schema fragment: one type name or a list of type names.
\<close>

datatype type_entry = TStr string | TList "string list"

text \<open>Python truthiness of such a value: the empty string and the empty list are falsy.\<close>

fun truthy :: "type_entry \<Rightarrow> bool" where
  "truthy (TStr s) = (s \<noteq> [])"
| "truthy (TList l) = (l \<noteq> [])"

text \<open>
  The \<open>input_types\<close> dict, by the three keys the function reads. A field is \<open>None\<close> when
  the key is absent. An element of \<open>anyOf\<close> is a dict, of which only \<open>.get("type")\<close> is read.
\<close>

type_synonym any_type = "type_entry option"

record input_types =
  it_type :: "type_entry option"
  it_anyOf :: "any_type list option"
  it_format :: "string option"

text \<open>
  The loop over \<open>anyOf\<close> (lines 48-53). \<open>types.extend\<close> and \<open>types.append\<close> exist on a
  list only: when \<open>types\<close> is a string (the empty one, since the loop runs only for a falsy
  \<open>types\<close>), the first alternative with a truthy type raises AttributeError.
\<close>

fun extend_types :: "type_entry \<Rightarrow> any_type list \<Rightarrow> py_error + type_entry" where
  "extend_types types [] = Inr types"
| "extend_types types (None # rest) = extend_types types rest"
| "extend_types types (Some t # rest) =
     (if truthy t then
        (case types of
           TStr s \<Rightarrow> Inl AttributeError
         | TList l \<Rightarrow>
             (case t of
                TList names \<Rightarrow> extend_types (TList (l @ names)) rest
              | TStr name \<Rightarrow> extend_types (TList (l @ [name])) rest))
      else extend_types types rest)"

text \<open>
  Lines 45-54 of \<open>_field_type_to_pyarrow_field\<close>: the declared type names, from \<open>"type"\<close>
  or else from the \<open>anyOf\<close> alternatives, as a list.
\<close>

definition resolve_types :: "input_types \<Rightarrow> py_error + string list" where
  "resolve_types it =
     (let types = (case it_type it of None \<Rightarrow> TList [] | Some t \<Rightarrow> t) in
      case (if truthy types then Inr types
            else extend_types types (case it_anyOf it of None \<Rightarrow> [] | Some l \<Rightarrow> l)) of
        Inl e \<Rightarrow> Inl e
      | Inr (TStr s) \<Rightarrow> Inr [s]
      | Inr (TList l) \<Rightarrow> Inr l)"

text \<open>
  \<open>_field_type_to_pyarrow_field\<close> (an Isabelle name cannot start with an underscore), with
  \<open>str.upper\<close> as its first argument. \<open>list.remove\<close> deletes the first occurrence only,
  which is \<open>remove1\<close>.
\<close>

definition field_type_to_pyarrow_field ::
  "(string \<Rightarrow> string) \<Rightarrow> string \<Rightarrow> input_types \<Rightarrow> string list \<Rightarrow> bool
     \<Rightarrow> py_error + pa_field" where
  "field_type_to_pyarrow_field upper name input_types required_fields cast_by_format =
     (case resolve_types input_types of
        Inl e \<Rightarrow> Inl e
      | Inr types \<Rightarrow>
          (let types_uppercase = map upper types;
               nullable = (''NULL'' \<in> set types_uppercase \<or> name \<notin> set required_fields);
               types_uppercase =
                 (if ''NULL'' \<in> set types_uppercase
                  then remove1 ''NULL'' types_uppercase else types_uppercase);
               input_type = (case types_uppercase of [] \<Rightarrow> '''' | t # _ \<Rightarrow> t);
               input_type =
                 (case it_format input_types of
                    None \<Rightarrow> input_type
                  | Some format \<Rightarrow>
                      if cast_by_format \<and> format \<noteq> ''''
                      then cast_input_type_by_format format input_type
                      else input_type);
               pyarrow_type =
                 (case FIELD_TYPE_TO_PYARROW input_type of None \<Rightarrow> pa_string | Some t \<Rightarrow> t)
           in Inr \<lparr>field_name = name, field_type = pyarrow_type, field_nullable = nullable\<rparr>))"

text \<open>
  The declared types of a field in the words of the specification, read off the fragment:
  the names under \<open>"type"\<close>, and, when \<open>"type"\<close> is absent or empty, the names that the
  \<open>anyOf\<close> alternatives declare, in their order.
\<close>

fun entry_names :: "type_entry \<Rightarrow> string list" where
  "entry_names (TStr s) = [s]"
| "entry_names (TList l) = l"

definition alternative_names :: "any_type list \<Rightarrow> string list" where
  "alternative_names alternatives =
     concat (map (\<lambda>a. case a of
                        None \<Rightarrow> []
                      | Some t \<Rightarrow> if truthy t then entry_names t else []) alternatives)"

definition declared_types :: "input_types \<Rightarrow> string list" where
  "declared_types it =
     (let alternatives = (case it_anyOf it of None \<Rightarrow> [] | Some l \<Rightarrow> l) in
      case it_type it of
        None \<Rightarrow> alternative_names alternatives
      | Some t \<Rightarrow>
          if truthy t then entry_names t
          else entry_names t @ alternative_names alternatives)"

text \<open>
  The resolved primitive type in the words of the specification: the first declared type
  that is not null, compared in upper case; the empty name when there is none.
\<close>

definition first_declared_non_null_type :: "(string \<Rightarrow> string) \<Rightarrow> string list \<Rightarrow> string" where
  "first_declared_non_null_type upper types =
     (case filter (\<lambda>t. upper t \<noteq> ''NULL'') types of [] \<Rightarrow> '''' | t # _ \<Rightarrow> upper t)"

text \<open>The column type the specification assigns to a resolved type, an option and a format.\<close>

definition column_type_by_format :: "bool \<Rightarrow> string \<Rightarrow> string option \<Rightarrow> pa_type" where
  "column_type_by_format cast_by_format resolved format =
     (if cast_by_format \<and> resolved = ''STRING'' \<and> format = Some ''date-time''
      then pa_timestamp_us
      else if cast_by_format \<and> resolved = ''STRING'' \<and> format = Some ''singer.decimal''
      then pa_float64
      else (case FIELD_TYPE_TO_PYARROW resolved of None \<Rightarrow> pa_string | Some t \<Rightarrow> t))"

section \<open>utils/parquet.py: tables\<close>

text \<open>
  A flattened record is a Python dict from column names to values; a key may be bound to
  Python's \<open>None\<close>, so a binding is an optional value. \<open>row.get(f)\<close> is \<open>None\<close> for an
  absent key and for a key bound to \<open>None\<close>.
\<close>

type_synonym 'v pydict = "string \<rightharpoonup> 'v option"

definition dict_get :: "'v pydict \<Rightarrow> string \<Rightarrow> 'v option" where
  "dict_get row f = (case row f of None \<Rightarrow> None | Some v \<Rightarrow> v)"

text \<open>
  The keys of a dict comprehension over \<open>names\<close>, in insertion order: a repeated name keeps
  the position of its first occurrence.
\<close>

definition comprehension_keys :: "string list \<Rightarrow> string list" where
  "comprehension_keys names = rev (remdups (rev names))"

definition schema_names :: "pa_schema \<Rightarrow> string list" where
  "schema_names schema = map field_name schema"

text \<open>Line 102: the dict \<open>data\<close>, as the list of its items.\<close>

definition table_data :: "'v pydict list \<Rightarrow> pa_schema \<Rightarrow> (string \<times> 'v option list) list" where
  "table_data list_dict schema =
     map (\<lambda>f. (f, map (\<lambda>row. dict_get row f) list_dict))
       (comprehension_keys (schema_names schema))"

text \<open>
  A pyarrow table: its columns in order, each with its field and its cells; \<open>None\<close> is a
  null cell. \<open>len(table)\<close> is the number of rows.
\<close>

type_synonym 'v pa_table = "(pa_field \<times> 'v option list) list"

definition num_rows :: "'v pa_table \<Rightarrow> nat" where
  "num_rows table = (case table of [] \<Rightarrow> 0 | (f, column) # _ \<Rightarrow> length column)"

text \<open>
  \<open>pa.table(data).cast(schema)\<close> belongs to pyarrow. What the model keeps of it: the cast
  raises ValueError when the names of the table are not the names of the target schema, it
  converts cell by cell into the type of the target field, and it raises when one
  conversion does. The conversion of one cell is the parameter \<open>cast_cell\<close>.
\<close>

fun cast_column ::
  "(pa_field \<Rightarrow> 'v option \<Rightarrow> py_error + 'v option) \<Rightarrow> pa_field \<Rightarrow> 'v option list
     \<Rightarrow> py_error + 'v option list" where
  "cast_column cast_cell f [] = Inr []"
| "cast_column cast_cell f (c # cs) =
     (case cast_cell f c of
        Inl e \<Rightarrow> Inl e
      | Inr c' \<Rightarrow>
          (case cast_column cast_cell f cs of
             Inl e \<Rightarrow> Inl e
           | Inr cs' \<Rightarrow> Inr (c' # cs')))"

fun cast_columns ::
  "(pa_field \<Rightarrow> 'v option \<Rightarrow> py_error + 'v option) \<Rightarrow> (pa_field \<times> 'v option list) list
     \<Rightarrow> py_error + 'v pa_table" where
  "cast_columns cast_cell [] = Inr []"
| "cast_columns cast_cell ((f, column) # rest) =
     (case cast_column cast_cell f column of
        Inl e \<Rightarrow> Inl e
      | Inr column' \<Rightarrow>
          (case cast_columns cast_cell rest of
             Inl e \<Rightarrow> Inl e
           | Inr rest' \<Rightarrow> Inr ((f, column') # rest')))"

definition table_cast ::
  "(pa_field \<Rightarrow> 'v option \<Rightarrow> py_error + 'v option) \<Rightarrow> (string \<times> 'v option list) list
     \<Rightarrow> pa_schema \<Rightarrow> py_error + 'v pa_table" where
  "table_cast cast_cell data schema =
     (if map fst data \<noteq> schema_names schema
      then Inl (ValueError ''Target schema's field names are not matching the table's field names'')
      else cast_columns cast_cell (zip schema (map snd data)))"

definition create_pyarrow_table ::
  "(pa_field \<Rightarrow> 'v option \<Rightarrow> py_error + 'v option) \<Rightarrow> 'v pydict list \<Rightarrow> pa_schema
     \<Rightarrow> py_error + 'v pa_table" where
  "create_pyarrow_table cast_cell list_dict schema =
     table_cast cast_cell (table_data list_dict schema) schema"



text \<open>
  \<open>pa.concat_tables([t1, t2])\<close>, also pyarrow's: it raises ArrowInvalid unless both tables
  have the same fields, and it appends the cells of \<open>t2\<close> to those of \<open>t1\<close>, column by column.
\<close>

definition pa_concat_tables :: "'v pa_table \<Rightarrow> 'v pa_table \<Rightarrow> py_error + 'v pa_table" where
  "pa_concat_tables t1 t2 =
     (if map fst t1 \<noteq> map fst t2 then Inl ArrowInvalid
      else Inr (map (\<lambda>(c1, c2). (fst c1, snd c1 @ snd c2)) (zip t1 t2)))"

text \<open>
  \<open>concat_tables\<close>. The existing table may be Python's \<open>None\<close>; \<open>if pyarrow_table\<close> is
  false for \<open>None\<close> and for a table with no row.
\<close>

definition concat_tables ::
  "(pa_field \<Rightarrow> 'v option \<Rightarrow> py_error + 'v option) \<Rightarrow> 'v pydict list \<Rightarrow> 'v pa_table option
     \<Rightarrow> pa_schema \<Rightarrow> py_error + 'v pa_table option" where
  "concat_tables cast_cell records pyarrow_table pyarrow_schema =
     (if records = [] then Inr pyarrow_table
      else
        (case create_pyarrow_table cast_cell records pyarrow_schema of
           Inl e \<Rightarrow> Inl e
         | Inr new_table \<Rightarrow>
             (case pyarrow_table of
                None \<Rightarrow> Inr (Some new_table)
              | Some table \<Rightarrow>
                  if num_rows table = 0 then Inr (Some new_table)
                  else
                    (case pa_concat_tables table new_table of
                       Inl e \<Rightarrow> Inl e
                     | Inr t \<Rightarrow> Inr (Some t)))))"

text \<open>
  The rows of a table, top to bottom: row \<open>i\<close> holds cell \<open>i\<close> of every column. The rows of
  the existing table are none when there is no table.
\<close>

definition table_rows :: "'v pa_table \<Rightarrow> (pa_field \<times> 'v option) list list" where
  "table_rows table =
     map (\<lambda>i. map (\<lambda>(f, column). (f, column ! i)) table) [0..<num_rows table]"

definition existing_rows :: "'v pa_table option \<Rightarrow> (pa_field \<times> 'v option) list list" where
  "existing_rows pyarrow_table =
     (case pyarrow_table of None \<Rightarrow> [] | Some table \<Rightarrow> table_rows table)"

text \<open>Every table of pyarrow has columns of one length.\<close>

definition rectangular :: "'v pa_table \<Rightarrow> bool" where
  "rectangular table = list_all (\<lambda>c. length (snd c) = num_rows table) table"

section \<open>__init__.py: producer, consumer and persist_messages\<close>

datatype MessageType = RECORD | STATE | SCHEMA | EOF

text \<open>
  The dict that \<open>singer.parse_message(message).asdict()\<close> returns, by its \<open>"type"\<close>:
  a record of a stream, a state value (\<open>None\<close> for JSON null), a schema of a stream with
  its key properties, or a message of another type.
\<close>

datatype 'j message =
    Record string 'j
  | State "'j option"
  | Schema string 'j "string list"
  | Unknown string

text \<open>
  What the producer calls and this repository's sources do not hold: the parser of the
  singer library, the validator of jsonschema, the lookup \<open>schema["properties"]\<close> (absent
  key: \<open>None\<close>), and \<open>flatten_schema\<close> and \<open>flatten\<close> of the module \<open>helpers\<close>. They are
  parameters; each may raise.
\<close>

record ('j, 'fs, 'fr) helpers =
  parse_message :: "string \<Rightarrow> py_error + 'j message"
  validate :: "'j \<Rightarrow> 'j \<Rightarrow> py_error option"
  properties :: "'j \<Rightarrow> 'j option"
  flatten_schema :: "'j \<Rightarrow> py_error + 'fs"
  flatten :: "'j \<Rightarrow> 'fs \<Rightarrow> py_error + 'fr"

text \<open>
  An item of the work queue is a triple: the message type, the stream name (the shutdown
  object \<open>_break_object\<close> for EOF) and the payload.
\<close>

datatype queue_name = StreamName string | break_object

datatype ('fs, 'fr) payload = FlatRecord 'fr | FlatSchema 'fs | NoPayload

type_synonym ('fs, 'fr) queue_item = "MessageType \<times> queue_name \<times> ('fs, 'fr) payload"

text \<open>
  The variables the producer reads and writes: the dicts of \<open>persist_messages\<close> it closes
  over, the queue, and its local \<open>state\<close>.
\<close>

record ('j, 'fs, 'fr) producer_state =
  schemas :: "string \<rightharpoonup> 'fs"
  validators :: "string \<rightharpoonup> 'j"
  key_properties :: "string \<rightharpoonup> string list"
  w_queue :: "('fs, 'fr) queue_item list"
  state :: "'j option"

definition initial_state :: "('j, 'fs, 'fr) producer_state" where
  "initial_state =
     \<lparr>schemas = Map.empty, validators = Map.empty, key_properties = Map.empty,
      w_queue = [], state = None\<rparr>"

definition record_before_schema :: "string \<Rightarrow> py_error" where
  "record_before_schema stream =
     ValueError (''A record for stream '' @ stream
                 @ '' was encountered before a corresponding schema'')"

definition unable_to_parse :: "string \<Rightarrow> py_error" where
  "unable_to_parse message = Exception (''Unable to parse:'' @ [CHR 0x0A] @ message)"

text \<open>
  The body of the loop of \<open>producer\<close> (lines 120-155) on one line of input: the variables
  after it, and the exception it raised, if any.
\<close>

definition process_message ::
  "('j, 'fs, 'fr) helpers \<Rightarrow> ('j, 'fs, 'fr) producer_state \<Rightarrow> string
     \<Rightarrow> ('j, 'fs, 'fr) producer_state \<times> py_error option" where
  "process_message h st line =
     (case parse_message h line of
        Inl e \<Rightarrow> (st, Some (if e = JSONDecodeError then unable_to_parse line else e))
      | Inr (Record stream record) \<Rightarrow>
          (case schemas st stream of
             None \<Rightarrow> (st, Some (record_before_schema stream))
           | Some schema \<Rightarrow>
               (case validators st stream of
                  None \<Rightarrow> (st, Some KeyError)
                | Some validator \<Rightarrow>
                    (case validate h validator record of
                       Some e \<Rightarrow> (st, Some e)
                     | None \<Rightarrow>
                         (case flatten h record schema of
                            Inl e \<Rightarrow> (st, Some e)
                          | Inr flattened_record \<Rightarrow>
                              (st\<lparr>w_queue := w_queue st
                                    @ [(RECORD, StreamName stream, FlatRecord flattened_record)],
                                  state := None\<rparr>, None)))))
      | Inr (State v) \<Rightarrow> (st\<lparr>state := v\<rparr>, None)
      | Inr (Schema stream schema key_props) \<Rightarrow>
          (let st1 = st\<lparr>validators := (validators st)(stream \<mapsto> schema)\<rparr> in
           case properties h schema of
             None \<Rightarrow> (st1, Some KeyError)
           | Some props \<Rightarrow>
               (case flatten_schema h props of
                  Inl e \<Rightarrow> (st1, Some e)
                | Inr flat \<Rightarrow>
                    (st1\<lparr>schemas := (schemas st1)(stream \<mapsto> flat),
                         key_properties := (key_properties st1)(stream \<mapsto> key_props),
                         w_queue := w_queue st1 @ [(SCHEMA, StreamName stream, FlatSchema flat)]\<rparr>,
                     None)))
      | Inr (Unknown t) \<Rightarrow> (st, None))"

text \<open>The \<open>for\<close> loop: it stops at the first line that raises.\<close>

fun producer_loop ::
  "('j, 'fs, 'fr) helpers \<Rightarrow> ('j, 'fs, 'fr) producer_state \<Rightarrow> string list
     \<Rightarrow> ('j, 'fs, 'fr) producer_state \<times> py_error option" where
  "producer_loop h st [] = (st, None)"
| "producer_loop h st (line # rest) =
     (case process_message h st line of
        (st', Some e) \<Rightarrow> (st', Some e)
      | (st', None) \<Rightarrow> producer_loop h st' rest)"

text \<open>
  \<open>producer\<close>: after the loop it puts EOF and returns \<open>state\<close>; the handler of the \<open>try\<close>
  puts EOF and raises the exception again. The result is the variables at the end and the
  returned state or the exception.
\<close>

definition eof_item :: "('fs, 'fr) queue_item" where
  "eof_item = (EOF, break_object, NoPayload)"

definition producer ::
  "('j, 'fs, 'fr) helpers \<Rightarrow> ('j, 'fs, 'fr) producer_state \<Rightarrow> string list
     \<Rightarrow> ('j, 'fs, 'fr) producer_state \<times> (py_error + 'j option)" where
  "producer h st message_buffer =
     (case producer_loop h st message_buffer of
        (st', None) \<Rightarrow> (st'\<lparr>w_queue := w_queue st' @ [eof_item]\<rparr>, Inr (state st'))
      | (st', Some e) \<Rightarrow> (st'\<lparr>w_queue := w_queue st' @ [eof_item]\<rparr>, Inl e))"

text \<open>
  \<open>consumer\<close>: the loop takes one item after the other from the queue and leaves at EOF;
  no other branch is left in the body, so \<open>files_created\<close> stays as it starts and
  \<open>write_file\<close> is never called. \<open>receiver.get()\<close> blocks on an empty queue: the result is
  \<open>None\<close> when the items end before an EOF.
\<close>

fun consumer_loop :: "string list \<Rightarrow> ('fs, 'fr) queue_item list \<Rightarrow> string list option" where
  "consumer_loop files_created [] = None"
| "consumer_loop files_created ((message_type, stream_name, record) # receiver) =
     (if message_type = EOF then Some files_created
      else consumer_loop files_created receiver)"

definition consumer :: "('fs, 'fr) queue_item list \<Rightarrow> string list option" where
  "consumer receiver = consumer_loop [] receiver"

text \<open>
  \<open>persist_messages\<close>, from the queue on: the files the consumer process created, and the
  state the producer returned or the exception that leaves \<open>persist_messages\<close>.
\<close>

definition persist_messages ::
  "('j, 'fs, 'fr) helpers \<Rightarrow> string list \<Rightarrow> string list option \<times> (py_error + 'j option)" where
  "persist_messages h messages =
     (case producer h initial_state messages of
        (st, result) \<Rightarrow> (consumer (w_queue st), result))"

text \<open>Whether a line of input parses to a message of a kind.\<close>

definition is_record :: "('j, 'fs, 'fr) helpers \<Rightarrow> string \<Rightarrow> bool" where
  "is_record h line =
     (case parse_message h line of Inr (Record stream record) \<Rightarrow> True | _ \<Rightarrow> False)"

definition is_state :: "('j, 'fs, 'fr) helpers \<Rightarrow> string \<Rightarrow> bool" where
  "is_state h line = (case parse_message h line of Inr (State v) \<Rightarrow> True | _ \<Rightarrow> False)"

definition is_schema_of :: "('j, 'fs, 'fr) helpers \<Rightarrow> string \<Rightarrow> string \<Rightarrow> bool" where
  "is_schema_of h stream line =
     (case parse_message h line of
        Inr (Schema s schema key_props) \<Rightarrow> s = stream
      | _ \<Rightarrow> False)"

section \<open>target.py: the state message\<close>

text \<open>
  The values a state holds: the values of JSON and \<open>Decimal\<close>. Floats and decimals are
  kept abstract (\<open>'f\<close>, \<open>'d\<close>).
\<close>

datatype ('f, 'd) pyval =
    PyNone
  | PyBool bool
  | PyInt int
  | PyFloat 'f
  | PyStr string
  | PyDecimal 'd
  | PyList "('f, 'd) pyval list"
  | PyDict "(string \<times> ('f, 'd) pyval) list"

text \<open>
  What Python and the json module supply: \<open>float(obj)\<close> of a \<open>Decimal\<close>, and the texts of
  a float, an integer and a string in JSON.
\<close>

record ('f, 'd) json_prims =
  float_of_decimal :: "'d \<Rightarrow> 'f"
  float_repr :: "'f \<Rightarrow> string"
  int_repr :: "int \<Rightarrow> string"
  str_repr :: "string \<Rightarrow> string"

fun join :: "string \<Rightarrow> string list \<Rightarrow> string" where
  "join sep [] = []"
| "join sep [x] = x"
| "join sep (x # y # rest) = x @ sep @ join sep (y # rest)"

text \<open>The first exception of a list of results, or all the values.\<close>

fun collect :: "(py_error + 'a) list \<Rightarrow> py_error + 'a list" where
  "collect [] = Inr []"
| "collect (Inl e # rest) = Inl e"
| "collect (Inr x # rest) = (case collect rest of Inl e \<Rightarrow> Inl e | Inr xs \<Rightarrow> Inr (x # xs))"

definition json_array :: "py_error + string list \<Rightarrow> py_error + string" where
  "json_array items =
     (case items of Inl e \<Rightarrow> Inl e | Inr xs \<Rightarrow> Inr (''['' @ join '', '' xs @ '']''))"

definition json_object :: "py_error + string list \<Rightarrow> py_error + string" where
  "json_object items =
     (case items of Inl e \<Rightarrow> Inl e | Inr xs \<Rightarrow> Inr (''{'' @ join '', '' xs @ ''}''))"

definition json_item :: "string \<Rightarrow> py_error + string \<Rightarrow> py_error + string" where
  "json_item key v = (case v of Inl e \<Rightarrow> Inl e | Inr text \<Rightarrow> Inr (key @ '': '' @ text))"

text \<open>\<open>JSONEncoder.default\<close>: it raises TypeError.\<close>

definition JSONEncoder_default :: "('f, 'd) pyval \<Rightarrow> py_error + ('f, 'd) pyval" where
  "JSONEncoder_default obj = Inl TypeError"

text \<open>\<open>DecimalEncoder.default\<close>.\<close>

definition DecimalEncoder_default ::
  "('f, 'd) json_prims \<Rightarrow> ('f, 'd) pyval \<Rightarrow> py_error + ('f, 'd) pyval" where
  "DecimalEncoder_default p obj =
     (case obj of
        PyDecimal d \<Rightarrow> Inr (PyFloat (float_of_decimal p d))
      | _ \<Rightarrow> JSONEncoder_default obj)"

text \<open>
  \<open>json.dumps(obj)\<close> with the encoder of the library: a \<open>Decimal\<close> is no value of JSON, so
  it goes to \<open>JSONEncoder.default\<close>.
\<close>

primrec dumps :: "('f, 'd) json_prims \<Rightarrow> ('f, 'd) pyval \<Rightarrow> py_error + string" where
  "dumps p PyNone = Inr ''null''"
| "dumps p (PyBool b) = Inr (if b then ''true'' else ''false'')"
| "dumps p (PyInt i) = Inr (int_repr p i)"
| "dumps p (PyFloat x) = Inr (float_repr p x)"
| "dumps p (PyStr s) = Inr (str_repr p s)"
| "dumps p (PyDecimal d) = Inl TypeError"
| "dumps p (PyList xs) = json_array (collect (map (dumps p) xs))"
| "dumps p (PyDict kvs) =
     json_object (collect (map (\<lambda>kv. json_item (str_repr p (fst kv)) (snd kv))
                             (map (map_prod id (dumps p)) kvs)))"

text \<open>
  \<open>json.dumps(obj, cls=E)\<close> for an encoder class \<open>E\<close> given by its method \<open>default\<close>:
  the encoder calls \<open>default\<close> on a value that is none of JSON and encodes what it returns.
\<close>

primrec dumps_cls ::
  "('f, 'd) json_prims \<Rightarrow> (('f, 'd) pyval \<Rightarrow> py_error + ('f, 'd) pyval) \<Rightarrow> ('f, 'd) pyval
     \<Rightarrow> py_error + string" where
  "dumps_cls p dflt PyNone = Inr ''null''"
| "dumps_cls p dflt (PyBool b) = Inr (if b then ''true'' else ''false'')"
| "dumps_cls p dflt (PyInt i) = Inr (int_repr p i)"
| "dumps_cls p dflt (PyFloat x) = Inr (float_repr p x)"
| "dumps_cls p dflt (PyStr s) = Inr (str_repr p s)"
| "dumps_cls p dflt (PyDecimal d) =
     (case dflt (PyDecimal d) of Inl e \<Rightarrow> Inl e | Inr obj \<Rightarrow> dumps p obj)"
| "dumps_cls p dflt (PyList xs) = json_array (collect (map (dumps_cls p dflt) xs))"
| "dumps_cls p dflt (PyDict kvs) =
     json_object (collect (map (\<lambda>kv. json_item (str_repr p (fst kv)) (snd kv))
                             (map (map_prod id (dumps_cls p dflt)) kvs)))"

text \<open>
  \<open>_write_state_message\<close>: standard output is the list of the texts written to it.
\<close>

definition write_state_message ::
  "('f, 'd) json_prims \<Rightarrow> string list \<Rightarrow> ('f, 'd) pyval \<Rightarrow> py_error + string list" where
  "write_state_message p stdout st =
     (case dumps_cls p (DecimalEncoder_default p) st of
        Inl e \<Rightarrow> Inl e
      | Inr state_json \<Rightarrow> Inr (stdout @ [state_json @ [CHR 0x0A]]))"

text \<open>
  The value of the specification: every \<open>Decimal\<close>, at any depth, replaced by its float;
  every other value as it is.
\<close>

primrec decimals_to_floats :: "('f, 'd) json_prims \<Rightarrow> ('f, 'd) pyval \<Rightarrow> ('f, 'd) pyval" where
  "decimals_to_floats p PyNone = PyNone"
| "decimals_to_floats p (PyBool b) = PyBool b"
| "decimals_to_floats p (PyInt i) = PyInt i"
| "decimals_to_floats p (PyFloat x) = PyFloat x"
| "decimals_to_floats p (PyStr s) = PyStr s"
| "decimals_to_floats p (PyDecimal d) = PyFloat (float_of_decimal p d)"
| "decimals_to_floats p (PyList xs) = PyList (map (decimals_to_floats p) xs)"
| "decimals_to_floats p (PyDict kvs) = PyDict (map (map_prod id (decimals_to_floats p)) kvs)"

section \<open>An example run\<close>

text \<open>
  Stand-ins for the libraries, to run the producer on concrete lines: a parser that knows
  a few lines (a JSON object is the list of its items), a validator that accepts every
  record, and flattening that returns flat input as it is.
\<close>

definition example_helpers ::
  "((string \<times> string) list, (string \<times> string) list, (string \<times> string) list) helpers" where
  "example_helpers =
     \<lparr>parse_message = (\<lambda>line.
        if line = ''SCHEMA s col_a:string''
          then Inr (Schema ''s'' [(''col_a'', ''string'')] [])
        else if line = ''RECORD s col_a=x'' then Inr (Record ''s'' [(''col_a'', ''x'')])
        else if line = ''RECORD s col_a=y'' then Inr (Record ''s'' [(''col_a'', ''y'')])
        else if line = ''RECORD s2 col_b=z'' then Inr (Record ''s2'' [(''col_b'', ''z'')])
        else if line = ''STATE pos=1'' then Inr (State (Some [(''pos'', ''1'')]))
        else if line = ''STATE pos=2'' then Inr (State (Some [(''pos'', ''2'')]))
        else Inl JSONDecodeError),
      validate = (\<lambda>schema record. None),
      properties = (\<lambda>schema. Some schema),
      flatten_schema = (\<lambda>props. Inr props),
      flatten = (\<lambda>record schema. Inr record)\<rparr>"

section \<open>Facts about the schema mapping\<close>

lemma ascii_upper_null: "ascii_upper ''null'' = ''NULL''"
  by code_simp

lemma ascii_upper_string: "ascii_upper ''string'' = ''STRING''"
  by code_simp

lemma ascii_upper_integer: "ascii_upper ''integer'' = ''INTEGER''"
  by code_simp

lemma ascii_upper_mixed: "ascii_upper ''Null'' = ''NULL''"
  by code_simp

lemma FORMAT_MAPPING_cases:
  "FORMAT_MAPPING f =
     (if f = ''singer.decimal'' then Some ''NUMBER''
      else if f = ''date-time'' then Some ''DATETIME'' else None)"
  by (simp add: FORMAT_MAPPING_def)

lemma FIELD_TYPE_TO_PYARROW_values:
  "FIELD_TYPE_TO_PYARROW ''NUMBER'' = Some pa_float64"
  "FIELD_TYPE_TO_PYARROW ''DATETIME'' = Some pa_timestamp_us"
  "FIELD_TYPE_TO_PYARROW ''STRING'' = Some pa_string"
  "FIELD_TYPE_TO_PYARROW ''NULL'' = None"
  "FIELD_TYPE_TO_PYARROW '''' = None"
  by (simp_all add: FIELD_TYPE_TO_PYARROW_def)

text \<open>
  The loop over \<open>anyOf\<close> on a list appends the names of every alternative that declares
  some; on a string it returns only when no alternative declares any.
\<close>

lemma extend_types_list:
  "extend_types (TList l) alternatives = Inr (TList (l @ alternative_names alternatives))"
proof (induction alternatives arbitrary: l)
  case Nil
  then show ?case by (simp add: alternative_names_def)
next
  case (Cons a alternatives)
  show ?case
  proof (cases a)
    case None
    with Cons show ?thesis by (simp add: alternative_names_def)
  next
    case (Some t)
    with Cons show ?thesis
      by (cases t) (simp_all add: alternative_names_def)
  qed
qed

lemma extend_types_str:
  "extend_types (TStr s) alternatives = Inr r \<Longrightarrow>
   r = TStr s \<and> alternative_names alternatives = []"
proof (induction alternatives)
  case Nil
  then show ?case by (simp add: alternative_names_def)
next
  case (Cons a alternatives)
  show ?case
  proof (cases a)
    case None
    with Cons show ?thesis by (simp add: alternative_names_def)
  next
    case (Some t)
    with Cons show ?thesis
      by (cases "truthy t") (simp_all add: alternative_names_def)
  qed
qed

text \<open>What the function resolves is what the fragment declares.\<close>

lemma resolve_types_declared:
  assumes "resolve_types it = Inr types"
  shows "types = declared_types it"
proof (cases "it_type it")
  case None
  with assms show ?thesis
    by (simp add: resolve_types_def declared_types_def extend_types_list)
next
  case (Some t)
  show ?thesis
  proof (cases "truthy t")
    case True
    with Some assms show ?thesis
      by (cases t) (auto simp: resolve_types_def declared_types_def)
  next
    case False
    show ?thesis
    proof (cases t)
      case (TList l)
      with False Some assms show ?thesis
        by (simp add: resolve_types_def declared_types_def extend_types_list)
    next
      case (TStr s)
      with False Some assms obtain r where
        r: "extend_types (TStr s) (case it_anyOf it of None \<Rightarrow> [] | Some l \<Rightarrow> l) = Inr r"
        and types: "types = entry_names r"
        by (auto simp: resolve_types_def split: sum.splits type_entry.splits)
      from extend_types_str [OF r] types TStr False Some show ?thesis
        by (simp add: declared_types_def)
    qed
  qed
qed

text \<open>
  The function raises only from the loop over \<open>anyOf\<close>, and only when \<open>"type"\<close> is the
  empty string.
\<close>

lemma resolve_types_total:
  assumes "it_type it \<noteq> Some (TStr '''')"
  shows "resolve_types it = Inr (declared_types it)"
proof -
  have "\<exists>types. resolve_types it = Inr types"
  proof (cases "it_type it")
    case None
    then show ?thesis by (simp add: resolve_types_def extend_types_list)
  next
    case (Some t)
    show ?thesis
    proof (cases t)
      case (TStr s)
      with Some assms show ?thesis by (simp add: resolve_types_def)
    next
      case (TList l)
      with Some show ?thesis
        by (cases "l = []") (simp_all add: resolve_types_def extend_types_list)
    qed
  qed
  then show ?thesis using resolve_types_declared by blast
qed

text \<open>
  The type the code resolves is the first declared type that is not null, unless the
  declared types begin with null twice: \<open>list.remove\<close> takes the first null away and the
  second one is then the first type.
\<close>

lemma input_type_first_non_null:
  assumes "\<not> (\<exists>rest. map upper types = ''NULL'' # ''NULL'' # rest)"
  shows "(case (if ''NULL'' \<in> set (map upper types)
                then remove1 ''NULL'' (map upper types) else map upper types) of
            [] \<Rightarrow> '''' | t # _ \<Rightarrow> t) = first_declared_non_null_type upper types"
proof (cases types)
  case Nil
  then show ?thesis by (simp add: first_declared_non_null_type_def)
next
  case (Cons t ts)
  show ?thesis
  proof (cases "upper t = ''NULL''")
    case False
    with Cons show ?thesis by (simp add: first_declared_non_null_type_def)
  next
    case True
    show ?thesis
    proof (cases ts)
      case Nil
      with True Cons show ?thesis by (simp add: first_declared_non_null_type_def)
    next
      case (Cons t2 ts2)
      with True \<open>types = t # ts\<close> assms have "upper t2 \<noteq> ''NULL''" by simp
      with True Cons \<open>types = t # ts\<close> show ?thesis
        by (simp add: first_declared_non_null_type_def)
    qed
  qed
qed

lemma cast_by_format_elsewhere:
  assumes "field_type_to_pyarrow_field upper name it required_fields cast_by_format = Inr fld"
    and "\<not> (\<exists>rest. map upper (declared_types it) = ''NULL'' # ''NULL'' # rest)"
  shows "field_type fld =
           column_type_by_format cast_by_format
             (first_declared_non_null_type upper (declared_types it)) (it_format it)"
proof -
  from assms(1) obtain types where r: "resolve_types it = Inr types"
    by (auto simp: field_type_to_pyarrow_field_def split: sum.splits)
  then have types: "types = declared_types it" by (rule resolve_types_declared)
  let ?rt = "first_declared_non_null_type upper types"
  have rt: "(case (if ''NULL'' \<in> set (map upper types)
                then remove1 ''NULL'' (map upper types) else map upper types) of
            [] \<Rightarrow> '''' | t # _ \<Rightarrow> t) = ?rt"
  proof -
    from assms(2) types have "\<not> (\<exists>rest. map upper types = ''NULL'' # ''NULL'' # rest)"
      by simp
    then show ?thesis by (rule input_type_first_non_null)
  qed
  have "\<exists>fld'. field_type_to_pyarrow_field upper name it required_fields cast_by_format
            = Inr fld'
          \<and> field_type fld' = column_type_by_format cast_by_format ?rt (it_format it)"
    unfolding field_type_to_pyarrow_field_def r Let_def sum.case rt
    by (auto simp: column_type_by_format_def cast_input_type_by_format_def
        FORMAT_MAPPING_cases FIELD_TYPE_TO_PYARROW_values split: option.splits)
  with assms(1) types show ?thesis by auto
qed

text \<open>
  C4. The claim fails on the fragment
  \<open>{"anyOf": [{"type": "null"}, {"type": ["null", "string"]}], "format": "date-time"}\<close>
  with the cast by format on. Its declared types are null, null and string, so the first
  declared type that is not null is \<open>string\<close> and the claim gives a timestamp column. The
  code takes one \<open>NULL\<close> away, resolves the type \<open>NULL\<close>, which the format does not change,
  and builds a string column.
\<close>

theorem cast_by_format_repeated_null:
  "declared_types
     \<lparr>it_type = None,
      it_anyOf = Some [Some (TStr ''null''), Some (TList [''null'', ''string''])],
      it_format = Some ''date-time''\<rparr> = [''null'', ''null'', ''string'']
   \<and> first_declared_non_null_type ascii_upper [''null'', ''null'', ''string''] = ''STRING''
   \<and> column_type_by_format True ''STRING'' (Some ''date-time'') = pa_timestamp_us
   \<and> field_type_to_pyarrow_field ascii_upper ''col_a''
        \<lparr>it_type = None,
         it_anyOf = Some [Some (TStr ''null''), Some (TList [''null'', ''string''])],
         it_format = Some ''date-time''\<rparr> [] True
      = Inr \<lparr>field_name = ''col_a'', field_type = pa_string, field_nullable = True\<rparr>"
  by (simp add: declared_types_def alternative_names_def resolve_types_def
      first_declared_non_null_type_def column_type_by_format_def
      ascii_upper_null ascii_upper_string
      field_type_to_pyarrow_field_def cast_input_type_by_format_def FIELD_TYPE_TO_PYARROW_def)

text \<open>
  C5. The field that the function returns is nullable exactly when one of the declared
  types of the fragment is \<open>null\<close>, compared in upper case, or the name of the field is not
  among the required fields. The declared types are read off the fragment, from \<open>"type"\<close>
  or else from the \<open>anyOf\<close> alternatives.
\<close>

theorem nullable_iff:
  assumes "field_type_to_pyarrow_field upper name it required_fields cast_by_format = Inr fld"
  shows "field_nullable fld =
           ((\<exists>t \<in> set (declared_types it). upper t = ''NULL'') \<or> name \<notin> set required_fields)"
proof -
  from assms obtain types where r: "resolve_types it = Inr types"
    by (auto simp: field_type_to_pyarrow_field_def split: sum.splits)
  then have types: "types = declared_types it" by (rule resolve_types_declared)
  have "(''NULL'' \<in> set (map upper types)) = (\<exists>t \<in> set types. upper t = ''NULL'')"
    by force
  with assms r have "field_nullable fld =
      ((\<exists>t \<in> set types. upper t = ''NULL'') \<or> name \<notin> set required_fields)"
    by (auto simp: field_type_to_pyarrow_field_def Let_def simp del: set_map)
  with types show ?thesis by simp
qed

text \<open>
  The theorem of C5 on four fields: a required integer, a required field whose \<open>anyOf\<close>
  alternatives are null and string, a required field with \<open>Null\<close> in mixed case, and an
  integer that is not required.
\<close>

theorem nullable_iff_witness:
  "field_type_to_pyarrow_field ascii_upper ''id''
     \<lparr>it_type = Some (TList [''integer'']), it_anyOf = None, it_format = None\<rparr>
     [''id''] False
   = Inr \<lparr>field_name = ''id'', field_type = pa_int64, field_nullable = False\<rparr>
   \<and> field_type_to_pyarrow_field ascii_upper ''id''
     \<lparr>it_type = None, it_anyOf = Some [Some (TStr ''null''), Some (TStr ''string'')],
      it_format = None\<rparr>
     [''id''] False
   = Inr \<lparr>field_name = ''id'', field_type = pa_string, field_nullable = True\<rparr>
   \<and> field_type_to_pyarrow_field ascii_upper ''id''
     \<lparr>it_type = Some (TList [''Null'', ''integer'']), it_anyOf = None, it_format = None\<rparr>
     [''id''] False
   = Inr \<lparr>field_name = ''id'', field_type = pa_int64, field_nullable = True\<rparr>
   \<and> field_type_to_pyarrow_field ascii_upper ''id''
     \<lparr>it_type = Some (TList [''integer'']), it_anyOf = None, it_format = None\<rparr>
     [''other''] False
   = Inr \<lparr>field_name = ''id'', field_type = pa_int64, field_nullable = True\<rparr>"
proof -
  let ?a = "\<lparr>it_type = Some (TList [''integer'']), it_anyOf = None, it_format = None\<rparr>"
  let ?b = "\<lparr>it_type = None, it_anyOf = Some [Some (TStr ''null''), Some (TStr ''string'')],
      it_format = None\<rparr>"
  let ?c = "\<lparr>it_type = Some (TList [''Null'', ''integer'']), it_anyOf = None, it_format = None\<rparr>"
  note run = field_type_to_pyarrow_field_def resolve_types_def FIELD_TYPE_TO_PYARROW_def
    ascii_upper_null ascii_upper_string ascii_upper_integer ascii_upper_mixed
  note declared = declared_types_def alternative_names_def
    ascii_upper_null ascii_upper_string ascii_upper_integer ascii_upper_mixed
  obtain fa where a: "field_type_to_pyarrow_field ascii_upper ''id'' ?a [''id''] False = Inr fa"
    and ta: "field_type fa = pa_int64" and na: "field_name fa = ''id''"
    by (simp add: run)
  obtain fb where b: "field_type_to_pyarrow_field ascii_upper ''id'' ?b [''id''] False = Inr fb"
    and tb: "field_type fb = pa_string" and nb: "field_name fb = ''id''"
    by (simp add: run)
  obtain fc where c: "field_type_to_pyarrow_field ascii_upper ''id'' ?c [''id''] False = Inr fc"
    and tc: "field_type fc = pa_int64" and nc: "field_name fc = ''id''"
    by (simp add: run)
  obtain fd where d: "field_type_to_pyarrow_field ascii_upper ''id'' ?a [''other''] False = Inr fd"
    and td: "field_type fd = pa_int64" and nd: "field_name fd = ''id''"
    by (simp add: run)
  from nullable_iff [OF a] have "field_nullable fa = False" by (simp add: declared)
  with ta na have fa: "fa = \<lparr>field_name = ''id'', field_type = pa_int64, field_nullable = False\<rparr>"
    by (cases fa) simp
  from nullable_iff [OF b] have "field_nullable fb = True" by (simp add: declared)
  with tb nb have fb: "fb = \<lparr>field_name = ''id'', field_type = pa_string, field_nullable = True\<rparr>"
    by (cases fb) simp
  from nullable_iff [OF c] have "field_nullable fc = True" by (simp add: declared)
  with tc nc have fc: "fc = \<lparr>field_name = ''id'', field_type = pa_int64, field_nullable = True\<rparr>"
    by (cases fc) simp
  from nullable_iff [OF d] have "field_nullable fd = True" by (simp add: declared)
  with td nd have fd: "fd = \<lparr>field_name = ''id'', field_type = pa_int64, field_nullable = True\<rparr>"
    by (cases fd) simp
  from a b c d fa fb fc fd show ?thesis by simp
qed

text \<open>
  C8. The function is not total: for the fragment
  \<open>{"type": "", "anyOf": [{"type": "foo"}]}\<close> the type is falsy, the loop over \<open>anyOf\<close>
  runs, and \<open>types.append\<close> on the string raises AttributeError, where the claim promises
  a string field.
\<close>

theorem empty_type_with_anyOf_raises:
  "field_type_to_pyarrow_field upper ''f''
     \<lparr>it_type = Some (TStr ''''), it_anyOf = Some [Some (TStr ''foo'')], it_format = None\<rparr>
     [] False = Inl AttributeError"
  by (simp add: field_type_to_pyarrow_field_def resolve_types_def)

section \<open>Facts about tables\<close>



lemma comprehension_keys_fixed: "comprehension_keys names = names \<Longrightarrow> distinct names"
proof -
  assume "comprehension_keys names = names"
  then have "remdups (rev names) = rev names"
    by (metis comprehension_keys_def rev_rev_ident)
  then have "distinct (rev names)" by (metis distinct_remdups)
  then show ?thesis by simp
qed













lemma rectangular_iff: "rectangular t = (\<forall>c \<in> set t. length (snd c) = num_rows t)"
  by (simp add: rectangular_def list_all_iff)

lemma concat_row_low:
  assumes "length t1 = length t2" and "\<forall>c \<in> set t1. length (snd c) = m" and "i < m"
  shows "map (\<lambda>(f, column). (f, column ! i)) (map (\<lambda>(c1, c2). (fst c1, snd c1 @ snd c2)) (zip t1 t2))
         = map (\<lambda>(f, column). (f, column ! i)) t1"
  using assms by (induction t1 t2 rule: list_induct2) (auto simp: nth_append)

lemma concat_row_high:
  assumes "map fst t1 = map fst t2" and "\<forall>c \<in> set t1. length (snd c) = m"
  shows "map (\<lambda>(f, column). (f, column ! (m + k))) (map (\<lambda>(c1, c2). (fst c1, snd c1 @ snd c2)) (zip t1 t2))
         = map (\<lambda>(f, column). (f, column ! k)) t2"
proof -
  from assms(1) have "length t1 = length t2" by (metis length_map)
  then show ?thesis using assms
    by (induction t1 t2 rule: list_induct2) (auto simp: nth_append)
qed

lemma num_rows_concat:
  assumes "map fst t1 = map fst t2"
  shows "num_rows (map (\<lambda>(c1, c2). (fst c1, snd c1 @ snd c2)) (zip t1 t2)) = num_rows t1 + num_rows t2"
proof (cases t1)
  case Nil
  with assms show ?thesis by (simp add: num_rows_def)
next
  case (Cons a t1')
  with assms obtain b t2' where "t2 = b # t2'" by (cases t2) auto
  with Cons show ?thesis by (simp add: num_rows_def split: prod.splits)
qed

lemma table_rows_concat:
  assumes fields: "map fst t1 = map fst t2" and r1: "rectangular t1"
  shows "table_rows (map (\<lambda>(c1, c2). (fst c1, snd c1 @ snd c2)) (zip t1 t2))
         = table_rows t1 @ table_rows t2"
proof -
  let ?t = "map (\<lambda>(c1, c2). (fst c1, snd c1 @ snd c2)) (zip t1 t2)"
  let ?m = "num_rows t1" and ?n = "num_rows t2"
  let ?row = "\<lambda>t i. map (\<lambda>(f, column). (f, column ! i)) t"
  from fields have len: "length t1 = length t2" by (metis length_map)
  from r1 have cols: "\<forall>c \<in> set t1. length (snd c) = ?m" by (simp add: rectangular_iff)
  have rows: "table_rows ?t = map (?row ?t) [0..<?m + ?n]"
    by (simp add: table_rows_def num_rows_concat [OF fields])
  have shift: "[?m..<?m + ?n] = map (\<lambda>k. ?m + k) [0..<?n]"
    using map_add_upt [of ?m ?n] by (simp add: add.commute)
  have split: "[0..<?m + ?n] = [0..<?m] @ map (\<lambda>k. ?m + k) [0..<?n]"
    using upt_add_eq_append [of 0 ?m ?n] shift by simp
  have low: "map (?row ?t) [0..<?m] = map (?row t1) [0..<?m]"
    using concat_row_low [OF len cols] by simp
  have high: "map (\<lambda>k. ?row ?t (?m + k)) [0..<?n] = map (?row t2) [0..<?n]"
    using concat_row_high [OF fields cols] by simp
  have "table_rows ?t = map (?row ?t) [0..<?m] @ map (\<lambda>k. ?row ?t (?m + k)) [0..<?n]"
    unfolding rows split by (simp add: comp_def)
  also have "\<dots> = map (?row t1) [0..<?m] @ map (?row t2) [0..<?n]"
    unfolding low high ..
  finally show ?thesis by (simp add: table_rows_def)
qed

text \<open>
  C9. With no records \<open>concat_tables\<close> returns the existing table as it is. With records,
  when it returns, the result is a table whose rows are the rows of the existing table (none
  for \<open>None\<close> and for a table with no row), in their order, followed by the rows of the
  table built from the records, in the order of the records.
\<close>

theorem concat_tables_rows:
  "concat_tables cast_cell [] pyarrow_table S = Inr pyarrow_table
   \<and> (records \<noteq> [] \<and> concat_tables cast_cell records pyarrow_table S = Inr r
        \<and> (case pyarrow_table of None \<Rightarrow> True | Some t \<Rightarrow> rectangular t) \<longrightarrow>
      (\<exists>res new_table. r = Some res
         \<and> create_pyarrow_table cast_cell records S = Inr new_table
         \<and> table_rows res = existing_rows pyarrow_table @ table_rows new_table))"
proof -
  have first: "concat_tables cast_cell [] pyarrow_table S = Inr pyarrow_table"
    by (simp add: concat_tables_def)
  have second: "\<exists>res new_table. r = Some res
         \<and> create_pyarrow_table cast_cell records S = Inr new_table
         \<and> table_rows res = existing_rows pyarrow_table @ table_rows new_table"
    if ne: "records \<noteq> []" and ok: "concat_tables cast_cell records pyarrow_table S = Inr r"
      and rect: "case pyarrow_table of None \<Rightarrow> True | Some t \<Rightarrow> rectangular t"
  proof -
    from ne ok obtain new_table where new: "create_pyarrow_table cast_cell records S = Inr new_table"
      by (auto simp: concat_tables_def split: sum.splits)
    show ?thesis
    proof (cases pyarrow_table)
      case None
      with ne ok new show ?thesis by (auto simp: concat_tables_def existing_rows_def)
    next
      case (Some t)
      show ?thesis
      proof (cases "num_rows t = 0")
        case True
        with Some ne ok new show ?thesis
          by (auto simp: concat_tables_def existing_rows_def table_rows_def)
      next
        case False
        with Some ne ok new obtain res where res: "pa_concat_tables t new_table = Inr res"
          and r: "r = Some res"
          by (auto simp: concat_tables_def split: sum.splits)
        from res have fields: "map fst t = map fst new_table"
          and res_eq: "res = map (\<lambda>(c1, c2). (fst c1, snd c1 @ snd c2)) (zip t new_table)"
          by (auto simp: pa_concat_tables_def split: if_splits)
        from rect Some have "rectangular t" by simp
        from table_rows_concat [OF fields this] res_eq r new Some show ?thesis
          by (simp add: existing_rows_def)
      qed
    qed
  qed
  from first second show ?thesis by blast
qed

theorem concat_tables_rows_witness:
  "concat_tables (\<lambda>f c. Inr c) []
     (Some [(\<lparr>field_name = ''a'', field_type = pa_int64, field_nullable = True\<rparr>, [Some (1::int)])])
     [\<lparr>field_name = ''a'', field_type = pa_int64, field_nullable = True\<rparr>]
   = Inr (Some [(\<lparr>field_name = ''a'', field_type = pa_int64, field_nullable = True\<rparr>, [Some 1])])
   \<and> concat_tables (\<lambda>f c. Inr c) [[''a'' \<mapsto> Some 2], [''a'' \<mapsto> Some 3]]
     (Some [(\<lparr>field_name = ''a'', field_type = pa_int64, field_nullable = True\<rparr>, [Some (1::int)])])
     [\<lparr>field_name = ''a'', field_type = pa_int64, field_nullable = True\<rparr>]
   = Inr (Some [(\<lparr>field_name = ''a'', field_type = pa_int64, field_nullable = True\<rparr>,
                 [Some 1, Some 2, Some 3])])
   \<and> table_rows [(\<lparr>field_name = ''a'', field_type = pa_int64, field_nullable = True\<rparr>,
                 [Some (1::int), Some 2, Some 3])]
     = existing_rows
         (Some [(\<lparr>field_name = ''a'', field_type = pa_int64, field_nullable = True\<rparr>, [Some 1])])
       @ table_rows [(\<lparr>field_name = ''a'', field_type = pa_int64, field_nullable = True\<rparr>,
                 [Some 2, Some 3])]"
proof -
  let ?cc = "\<lambda>(f::pa_field) (c::int option). (Inr c :: py_error + int option)"
  let ?fa = "\<lparr>field_name = ''a'', field_type = pa_int64, field_nullable = True\<rparr>"
  let ?t = "[(?fa, [Some (1::int)])]"
  let ?rs = "[[''a'' \<mapsto> Some (2::int)], [''a'' \<mapsto> Some 3]]"
  let ?new = "[(?fa, [Some (2::int), Some 3])]"
  let ?res = "[(?fa, [Some (1::int), Some 2, Some 3])]"
  have new: "create_pyarrow_table ?cc ?rs [?fa] = Inr ?new"
    by (simp add: create_pyarrow_table_def table_cast_def table_data_def schema_names_def
        comprehension_keys_def dict_get_def)
  have ok: "concat_tables ?cc ?rs (Some ?t) [?fa] = Inr (Some ?res)"
    by (simp add: concat_tables_def new num_rows_def pa_concat_tables_def)
  have ne: "?rs \<noteq> []" by simp
  have rect: "case Some ?t of None \<Rightarrow> True | Some t \<Rightarrow> rectangular t"
    by (simp add: rectangular_def num_rows_def)
  from concat_tables_rows [of ?cc "Some ?t" "[?fa]" ?rs "Some ?res"] ne ok rect new
  show ?thesis by auto
qed

section \<open>Facts about the producer and the consumer\<close>

lemma process_message_queue:
  "\<exists>items. w_queue (fst (process_message h st line)) = w_queue st @ items
     \<and> list_all (\<lambda>i. fst i \<noteq> EOF) items"
  by (auto simp: process_message_def Let_def
      split: sum.splits message.splits option.splits)

lemma producer_loop_queue:
  "\<exists>items. w_queue (fst (producer_loop h st lines)) = w_queue st @ items
     \<and> list_all (\<lambda>i. fst i \<noteq> EOF) items"
proof (induction lines arbitrary: st)
  case Nil
  then show ?case by simp
next
  case (Cons line lines)
  obtain st' r where step: "process_message h st line = (st', r)" by (cases "process_message h st line")
  from process_message_queue [of h st line] step
  obtain a where a: "w_queue st' = w_queue st @ a" "list_all (\<lambda>i. fst i \<noteq> EOF) a" by auto
  show ?case
  proof (cases r)
    case (Some e)
    with step a show ?thesis by auto
  next
    case None
    from Cons.IH [of st'] obtain b where
      b: "w_queue (fst (producer_loop h st' lines)) = w_queue st' @ b" "list_all (\<lambda>i. fst i \<noteq> EOF) b"
      by auto
    with None step a show ?thesis by auto
  qed
qed

lemma consumer_loop_eof:
  "list_all (\<lambda>i. fst i \<noteq> EOF) items \<Longrightarrow>
   consumer_loop files (items @ eof_item # rest) = Some files"
  by (induction items) (auto simp: eof_item_def)

lemma producer_queue:
  "\<exists>items. w_queue (fst (producer h initial_state lines)) = items @ [eof_item]
     \<and> list_all (\<lambda>i. fst i \<noteq> EOF) items"
proof -
  obtain st r where loop: "producer_loop h initial_state lines = (st, r)"
    by (cases "producer_loop h initial_state lines")
  from producer_loop_queue [of h initial_state lines] loop
  obtain items where "w_queue st = items" "list_all (\<lambda>i. fst i \<noteq> EOF) items"
    by (auto simp: initial_state_def)
  with loop show ?thesis by (cases r) (auto simp: producer_def)
qed



lemma persist_messages_alt:
  "persist_messages h lines =
     (consumer (w_queue (fst (producer h initial_state lines))),
      snd (producer h initial_state lines))"
  by (simp add: persist_messages_def split: prod.splits)

lemma consumer_creates_no_file:
  "fst (persist_messages h lines) = Some []"
proof -
  obtain items where q: "w_queue (fst (producer h initial_state lines)) = items @ [eof_item]"
    and items: "list_all (\<lambda>i. fst i \<noteq> EOF) items"
    using producer_queue by blast
  then show ?thesis
    by (simp add: persist_messages_alt consumer_def consumer_loop_eof)
qed


lemma producer_loop_append:
  "producer_loop h st (xs @ ys) =
     (case producer_loop h st xs of
        (st', Some e) \<Rightarrow> (st', Some e)
      | (st', None) \<Rightarrow> producer_loop h st' ys)"
  by (induction xs arbitrary: st) (auto split: prod.splits option.splits)

lemma process_message_schemas:
  "\<not> is_schema_of h stream line \<Longrightarrow>
   schemas (fst (process_message h st line)) stream = schemas st stream"
  by (auto simp: process_message_def is_schema_of_def Let_def
      split: sum.splits message.splits option.splits)

lemma producer_loop_schemas:
  "list_all (\<lambda>l. \<not> is_schema_of h stream l) lines \<Longrightarrow>
   schemas (fst (producer_loop h st lines)) stream = schemas st stream"
proof (induction lines arbitrary: st)
  case Nil
  then show ?case by simp
next
  case (Cons line lines)
  then have keep: "schemas (fst (process_message h st line)) stream = schemas st stream"
    by (simp add: process_message_schemas)
  obtain st' r where step: "process_message h st line = (st', r)"
    by (cases "process_message h st line")
  with keep Cons show ?case by (cases r) auto
qed

lemma process_message_record_before_schema:
  "parse_message h line = Inr (Record stream record) \<Longrightarrow> schemas st stream = None \<Longrightarrow>
   process_message h st line = (st, Some (record_before_schema stream))"
  by (simp add: process_message_def)

lemma producer_result:
  "snd (producer h st lines) =
     (case snd (producer_loop h st lines) of
        None \<Rightarrow> Inr (state (fst (producer_loop h st lines)))
      | Some e \<Rightarrow> Inl e)"
  by (simp add: producer_def split: prod.splits option.splits)

text \<open>
  C2. When a line is a record of a stream and no earlier line is a schema of that stream,
  \<open>persist_messages\<close> ends with an exception and no file is created. The exception is the
  ValueError of line 129 when the earlier lines raise nothing; otherwise it is the exception
  of the first earlier line that raises.
\<close>

theorem record_before_schema_aborts:
  assumes "parse_message h line = Inr (Record stream record)"
    and "list_all (\<lambda>l. \<not> is_schema_of h stream l) pre"
  shows "\<exists>e. persist_messages h (pre @ line # post) = (Some [], Inl e)
           \<and> (snd (producer_loop h initial_state pre) = None \<longrightarrow>
                e = record_before_schema stream)"
proof -
  obtain st r where pre: "producer_loop h initial_state pre = (st, r)"
    by (cases "producer_loop h initial_state pre")
  have files: "fst (persist_messages h (pre @ line # post)) = Some []"
    by (rule consumer_creates_no_file)
  have none: "schemas st stream = None"
    using producer_loop_schemas [OF assms(2), of initial_state] pre
    by (simp add: initial_state_def)
  have loop: "producer_loop h initial_state (pre @ line # post)
      = (st, Some (case r of Some e \<Rightarrow> e | None \<Rightarrow> record_before_schema stream))"
    using pre process_message_record_before_schema [OF assms(1) none]
    by (cases r) (simp_all add: producer_loop_append)
  then have "snd (persist_messages h (pre @ line # post))
      = Inl (case r of Some e \<Rightarrow> e | None \<Rightarrow> record_before_schema stream)"
    by (simp add: persist_messages_alt producer_result)
  with files pre show ?thesis
    by (cases "persist_messages h (pre @ line # post)") auto
qed

lemma process_message_state_set:
  "parse_message h line = Inr (State v) \<Longrightarrow> process_message h st line = (st', None) \<Longrightarrow>
   state st' = v"
  by (auto simp: process_message_def)

lemma process_message_state_cleared:
  "is_record h line \<Longrightarrow> process_message h st line = (st', None) \<Longrightarrow> state st' = None"
  by (auto simp: process_message_def is_record_def Let_def
      split: sum.splits message.splits option.splits)

lemma process_message_state_kept:
  "\<not> is_record h line \<Longrightarrow> \<not> is_state h line \<Longrightarrow>
   process_message h st line = (st', None) \<Longrightarrow> state st' = state st"
  by (auto simp: process_message_def is_record_def is_state_def Let_def
      split: sum.splits message.splits option.splits)

lemma process_message_state_none:
  "\<not> is_state h line \<Longrightarrow> state st = None \<Longrightarrow>
   process_message h st line = (st', None) \<Longrightarrow> state st' = None"
  by (auto simp: process_message_def is_state_def Let_def
      split: sum.splits message.splits option.splits)

lemma producer_loop_state_kept:
  "list_all (\<lambda>l. \<not> is_record h l \<and> \<not> is_state h l) lines \<Longrightarrow>
   producer_loop h st lines = (st', None) \<Longrightarrow> state st' = state st"
proof (induction lines arbitrary: st)
  case Nil
  then show ?case by simp
next
  case (Cons line lines)
  obtain st1 r where step: "process_message h st line = (st1, r)"
    by (cases "process_message h st line")
  with Cons.prems have r: "r = None" and rest: "producer_loop h st1 lines = (st', None)"
    by (cases r; simp)+
  from Cons.prems step r have "state st1 = state st"
    using process_message_state_kept [of h line st st1] by simp
  moreover from Cons.IH [OF _ rest] Cons.prems have "state st' = state st1" by simp
  ultimately show ?case by simp
qed

lemma producer_loop_state_none:
  "list_all (\<lambda>l. \<not> is_state h l) lines \<Longrightarrow> state st = None \<Longrightarrow>
   producer_loop h st lines = (st', None) \<Longrightarrow> state st' = None"
proof (induction lines arbitrary: st)
  case Nil
  then show ?case by simp
next
  case (Cons line lines)
  obtain st1 r where step: "process_message h st line = (st1, r)"
    by (cases "process_message h st line")
  with Cons.prems have r: "r = None" and rest: "producer_loop h st1 lines = (st', None)"
    by (cases r; simp)+
  from Cons.prems step r have "state st1 = None"
    using process_message_state_none [of h line st st1] by simp
  from Cons.IH [OF _ this rest] Cons.prems show ?case by simp
qed

lemma producer_loop_split:
  assumes "producer_loop h st (pre @ line # post) = (st', None)"
  obtains st1 st2 where "producer_loop h st pre = (st1, None)"
    and "process_message h st1 line = (st2, None)"
    and "producer_loop h st2 post = (st', None)"
proof -
  obtain st1 r1 where a: "producer_loop h st pre = (st1, r1)"
    by (cases "producer_loop h st pre")
  with assms have r1: "r1 = None" by (cases r1) (simp_all add: producer_loop_append)
  obtain st2 r2 where b: "process_message h st1 line = (st2, r2)"
    by (cases "process_message h st1 line")
  with assms a r1 have r2: "r2 = None" by (cases r2) (simp_all add: producer_loop_append)
  with assms a b r1 have "producer_loop h st2 post = (st', None)"
    by (simp add: producer_loop_append)
  with a b r1 r2 that show ?thesis by simp
qed

lemma persist_messages_returns:
  assumes "snd (persist_messages h lines) = Inr st"
  obtains st' where "producer_loop h initial_state lines = (st', None)" and "state st' = st"
proof -
  obtain st' r where loop: "producer_loop h initial_state lines = (st', r)"
    by (cases "producer_loop h initial_state lines")
  with assms have "r = None" and "state st' = st"
    by (cases r; simp add: persist_messages_alt producer_result)+
  with loop that show ?thesis by simp
qed

text \<open>
  C3. When \<open>persist_messages\<close> returns a state: it is the value of a state message that
  no record and no state message follows; it is \<open>None\<close> when a record is followed by no state
  message; and it is \<open>None\<close> when the input has no state message.
\<close>

theorem pending_state_returned:
  assumes "snd (persist_messages h lines) = Inr st"
  shows "(lines = pre @ line # post \<and> parse_message h line = Inr (State v)
            \<and> list_all (\<lambda>l. \<not> is_record h l \<and> \<not> is_state h l) post \<longrightarrow> st = v)
       \<and> (lines = pre @ line # post \<and> is_record h line
            \<and> list_all (\<lambda>l. \<not> is_state h l) post \<longrightarrow> st = None)
       \<and> (list_all (\<lambda>l. \<not> is_state h l) lines \<longrightarrow> st = None)"
proof -
  obtain st' where loop: "producer_loop h initial_state lines = (st', None)"
    and st: "state st' = st"
    using assms by (rule persist_messages_returns)
  have after_state: "st = v"
    if "lines = pre @ line # post" and "parse_message h line = Inr (State v)"
      and "list_all (\<lambda>l. \<not> is_record h l \<and> \<not> is_state h l) post"
  proof -
    from loop that(1) obtain st1 st2 where step: "process_message h st1 line = (st2, None)"
      and rest: "producer_loop h st2 post = (st', None)"
      by (auto elim: producer_loop_split)
    from process_message_state_set [OF that(2) step] have "state st2 = v" .
    with producer_loop_state_kept [OF that(3) rest] st show ?thesis by simp
  qed
  have after_record: "st = None"
    if "lines = pre @ line # post" and "is_record h line"
      and "list_all (\<lambda>l. \<not> is_state h l) post"
  proof -
    from loop that(1) obtain st1 st2 where step: "process_message h st1 line = (st2, None)"
      and rest: "producer_loop h st2 post = (st', None)"
      by (auto elim: producer_loop_split)
    from process_message_state_cleared [OF that(2) step] have "state st2 = None" .
    from producer_loop_state_none [OF that(3) this rest] st show ?thesis by simp
  qed
  have no_state: "st = None" if "list_all (\<lambda>l. \<not> is_state h l) lines"
    using producer_loop_state_none [OF that _ loop] st by (simp add: initial_state_def)
  from after_state after_record no_state show ?thesis by blast
qed

lemmas example_run =
  persist_messages_def producer_def process_message_def example_helpers_def
  initial_state_def consumer_def eof_item_def

text \<open>
  C1. On one schema with the string column \<open>col_a\<close> and the two records \<open>x\<close> and \<open>y\<close>,
  the producer puts the schema, both records in their order, and EOF on the queue, and
  returns no state; the consumer creates no file, where the claim says one batch of two
  rows is written.
\<close>

theorem two_records_no_file:
  "persist_messages example_helpers
     [''SCHEMA s col_a:string'', ''RECORD s col_a=x'', ''RECORD s col_a=y'']
   = (Some [], Inr None)
   \<and> w_queue (fst (producer example_helpers initial_state
        [''SCHEMA s col_a:string'', ''RECORD s col_a=x'', ''RECORD s col_a=y'']))
     = [(SCHEMA, StreamName ''s'', FlatSchema [(''col_a'', ''string'')]),
        (RECORD, StreamName ''s'', FlatRecord [(''col_a'', ''x'')]),
        (RECORD, StreamName ''s'', FlatRecord [(''col_a'', ''y'')]),
        (EOF, break_object, NoPayload)]"
  by (simp add: example_run)

text \<open>The theorem of C2 on a run: a record of \<open>s2\<close> after a schema and a record of \<open>s\<close>.\<close>

theorem record_before_schema_aborts_witness:
  "persist_messages example_helpers
     ([''SCHEMA s col_a:string'', ''RECORD s col_a=x''] @ ''RECORD s2 col_b=z''
        # [''RECORD s col_a=y''])
   = (Some [], Inl (record_before_schema ''s2''))"
proof -
  let ?pre = "[''SCHEMA s col_a:string'', ''RECORD s col_a=x'']"
  have parse: "parse_message example_helpers ''RECORD s2 col_b=z''
      = Inr (Record ''s2'' [(''col_b'', ''z'')])"
    by (simp add: example_helpers_def)
  have no_schema: "list_all (\<lambda>l. \<not> is_schema_of example_helpers ''s2'' l) ?pre"
    by (simp add: is_schema_of_def example_helpers_def)
  have pre: "snd (producer_loop example_helpers initial_state ?pre) = None"
    by (simp add: process_message_def example_helpers_def initial_state_def)
  from record_before_schema_aborts [OF parse no_schema, of "[''RECORD s col_a=y'']"] pre
  show ?thesis by auto
qed

text \<open>
  The theorem of C3 on three runs: a second state message after a record, a record after a
  state message, and no state message.
\<close>

theorem pending_state_returned_witness:
  "snd (persist_messages example_helpers
     ([''SCHEMA s col_a:string'', ''STATE pos=1'', ''RECORD s col_a=x''] @ ''STATE pos=2''
        # [''SCHEMA s col_a:string''])) = Inr (Some [(''pos'', ''2'')])
   \<and> snd (persist_messages example_helpers
     ([''SCHEMA s col_a:string'', ''STATE pos=1''] @ ''RECORD s col_a=x'' # []))
     = Inr None
   \<and> snd (persist_messages example_helpers [''SCHEMA s col_a:string'']) = Inr None"
proof -
  let ?a = "[''SCHEMA s col_a:string'', ''STATE pos=1'', ''RECORD s col_a=x''] @ ''STATE pos=2''
        # [''SCHEMA s col_a:string'']"
  let ?b = "[''SCHEMA s col_a:string'', ''STATE pos=1''] @ ''RECORD s col_a=x'' # []"
  let ?c = "[''SCHEMA s col_a:string'']"
  obtain sa where a: "snd (persist_messages example_helpers ?a) = Inr sa"
    by (simp add: example_run)
  obtain sb where b: "snd (persist_messages example_helpers ?b) = Inr sb"
    by (simp add: example_run)
  obtain sc where c: "snd (persist_messages example_helpers ?c) = Inr sc"
    by (simp add: example_run)
  have "sa = Some [(''pos'', ''2'')]"
    using pending_state_returned [OF a,
        of "[''SCHEMA s col_a:string'', ''STATE pos=1'', ''RECORD s col_a=x'']"
          "''STATE pos=2''" "[''SCHEMA s col_a:string'']" "Some [(''pos'', ''2'')]"]
    by (simp add: example_helpers_def is_record_def is_state_def)
  moreover have "sb = None"
    using pending_state_returned [OF b,
        of "[''SCHEMA s col_a:string'', ''STATE pos=1'']" "''RECORD s col_a=x''" "[]"]
    by (simp add: example_helpers_def is_record_def is_state_def)
  moreover have "sc = None"
    using pending_state_returned [OF c]
    by (simp add: example_helpers_def is_record_def is_state_def)
  ultimately show ?thesis using a b c by simp
qed

section \<open>Facts about the state message\<close>

lemma dumps_cls_DecimalEncoder:
  "dumps_cls p (DecimalEncoder_default p) v = dumps p (decimals_to_floats p v)"
proof (induction v)
  case (PyList xs)
  then have eq: "map (dumps_cls p (DecimalEncoder_default p)) xs
             = map (\<lambda>x. dumps p (decimals_to_floats p x)) xs"
    by simp
  show ?case by (simp add: eq comp_def)
next
  case (PyDict kvs)
  have ih: "dumps_cls p (DecimalEncoder_default p) (snd kv)
            = dumps p (decimals_to_floats p (snd kv))"
    if "kv \<in> set kvs" for kv
    using PyDict [OF that, of "snd kv"] by (cases kv) simp
  have "map (\<lambda>kv. json_item (str_repr p (fst kv))
               (dumps_cls p (DecimalEncoder_default p) (snd kv))) kvs
        = map (\<lambda>kv. json_item (str_repr p (fst kv))
               (dumps p (decimals_to_floats p (snd kv)))) kvs"
    by (rule map_cong) (simp_all add: ih)
  then show ?case by (simp add: comp_def map_prod_def split_def cong: map_cong)
qed (simp_all add: DecimalEncoder_default_def)

lemma collect_all_values:
  "list_all (\<lambda>r. \<exists>x. r = Inr x) rs \<Longrightarrow> \<exists>xs. collect rs = Inr xs"
proof (induction rs)
  case Nil
  then show ?case by simp
next
  case (Cons r rs)
  then show ?case by auto
qed

lemma dumps_without_decimal:
  "\<exists>encoded. dumps p (decimals_to_floats p v) = Inr encoded"
proof (induction v)
  case (PyList xs)
  then have "list_all (\<lambda>r. \<exists>x. r = Inr x) (map (dumps p) (map (decimals_to_floats p) xs))"
    by (simp add: list_all_iff)
  from collect_all_values [OF this] show ?case
    by (auto simp: json_array_def)
next
  case (PyDict kvs)
  have "list_all (\<lambda>r. \<exists>x. r = Inr x)
          (map (\<lambda>kv. json_item (str_repr p (fst kv)) (snd kv))
             (map (map_prod id (dumps p)) (map (map_prod id (decimals_to_floats p)) kvs)))"
  proof -
    have "\<exists>x. json_item (str_repr p (fst kv)) (dumps p (decimals_to_floats p (snd kv))) = Inr x"
      if "kv \<in> set kvs" for kv
    proof -
      from PyDict [OF that, of "snd kv"] obtain encoded
        where "dumps p (decimals_to_floats p (snd kv)) = Inr encoded"
        by (cases kv) auto
      then show ?thesis by (simp add: json_item_def)
    qed
    then show ?thesis by (simp add: list_all_iff)
  qed
  from collect_all_values [OF this] show ?case
    by (auto simp: json_object_def)
qed simp_all

text \<open>
  C7. For every state, \<open>_write_state_message\<close> raises nothing and writes one line: the
  JSON text that the encoder of the library gives for the state in which every \<open>Decimal\<close>,
  at any depth of lists and dicts, is replaced by its float and every other value is kept.
\<close>

theorem state_message_decimals_as_floats:
  "\<exists>state_json. dumps p (decimals_to_floats p st) = Inr state_json
     \<and> write_state_message p stdout st = Inr (stdout @ [state_json @ [CHR 0x0A]])"
proof -
  obtain state_json where "dumps p (decimals_to_floats p st) = Inr state_json"
    using dumps_without_decimal by blast
  then show ?thesis
    by (simp add: write_state_message_def dumps_cls_DecimalEncoder)
qed

end
